theory Spec2Isabelle
  imports Complex_Main "HOL-Library.Sublist" "HOL-Library.AList"
begin

section \<open>Values\<close>

text \<open>
  A JavaScript number is a binary64 value: a finite one, modelled as the real it
  denotes, or one of the three non-finite ones; the two zeros are one value. Fields the
  source declares as \<^verbatim>\<open>number\<close> and never tests for finiteness hold the real of a
  finite double; positions the source tests with \<^verbatim>\<open>Number.isFinite\<close> hold a
  \<open>jsnum\<close>.
\<close>

datatype jsnum = Fin real | PosInf | NegInf | NaN

text \<open>A value produced by \<^verbatim>\<open>JSON.parse\<close>; an absent property is \<open>None\<close> of an option.\<close>

datatype json =
    JNull
  | JBool bool
  | JNum jsnum
  | JStr string
  | JArr "json list"
  | JObj "(string \<times> json) list"

text \<open>A field declared \<^verbatim>\<open>x?: T | null\<close>: absent, null, or a value.\<close>

datatype 'a nullable = Undefined | Null | Val 'a

text \<open>
  The Number value for a real \<open>x\<close>: the nearest binary64 value, a tie going to the
  even significand, and an infinity from \<open>2 ^ 1024 - 2 ^ 970\<close> on. A number literal
  denotes the Number value for its decimal, and an arithmetic operation returns the
  Number value for its exact result. \<open>exponent a\<close> is the \<open>e\<close> with
  \<open>2 ^ e \<le> a < 2 ^ (e + 1)\<close>, for \<open>a > 0\<close>; the doubles around \<open>a\<close> are the
  multiples of \<open>2 ^ (e - 52)\<close>, of \<open>2 ^ - 1074\<close> below the normal range.
\<close>

fun bitLength :: "nat \<Rightarrow> nat" where
  "bitLength n = (if n = 0 then 0 else Suc (bitLength (n div 2)))"

declare bitLength.simps [simp del]

definition exponent :: "real \<Rightarrow> int" where
  "exponent a =
     (if 1 \<le> a then int (bitLength (nat \<lfloor>a\<rfloor>)) - 1
      else - int (bitLength (nat (\<lceil>1 / a\<rceil> - 1))))"

definition pow2 :: "int \<Rightarrow> real" where
  "pow2 q = (if 0 \<le> q then 2 ^ nat q else 1 / 2 ^ nat (- q))"

definition roundTiesToEven :: "real \<Rightarrow> int" where
  "roundTiesToEven x =
     (let f = \<lfloor>x\<rfloor>; d = x - of_int f
      in if d < 1 / 2 then f
         else if 1 / 2 < d then f + 1
         else if even f then f else f + 1)"

definition double :: "real \<Rightarrow> jsnum" where
  "double x =
     (if x = 0 then Fin 0
      else if 2 ^ 1024 - 2 ^ 970 \<le> \<bar>x\<bar> then (if 0 < x then PosInf else NegInf)
      else (let q = max (exponent \<bar>x\<bar>) (- 1022) - 52
            in Fin (of_int (roundTiesToEven (x / pow2 q)) * pow2 q)))"

text \<open>The product \<^verbatim>\<open>x * y\<close> of two numbers.\<close>

fun mul :: "jsnum \<Rightarrow> jsnum \<Rightarrow> jsnum" where
  "mul (Fin a) (Fin b) = double (a * b)"
| "mul NaN y = NaN"
| "mul x NaN = NaN"
| "mul (Fin a) y = (if a = 0 then NaN else if (0 < a) = (y = PosInf) then PosInf else NegInf)"
| "mul x (Fin b) = (if b = 0 then NaN else if (0 < b) = (x = PosInf) then PosInf else NegInf)"
| "mul x y = (if x = y then PosInf else NegInf)"

text \<open>\<^verbatim>\<open>Math.min(x, y)\<close>.\<close>

fun Math_min :: "jsnum \<Rightarrow> jsnum \<Rightarrow> jsnum" where
  "Math_min (Fin a) (Fin b) = Fin (min a b)"
| "Math_min NaN y = NaN"
| "Math_min x NaN = NaN"
| "Math_min NegInf y = NegInf"
| "Math_min x NegInf = NegInf"
| "Math_min PosInf y = y"
| "Math_min x PosInf = x"

text \<open>
  \<^verbatim>\<open>Math.round\<close>: the nearest integer, a tie going up; the result is exact, and a
  number that is not finite is returned as it is.
\<close>

fun Math_round :: "jsnum \<Rightarrow> jsnum" where
  "Math_round (Fin x) = Fin (of_int \<lfloor>x + 1 / 2\<rfloor>)"
| "Math_round x = x"

text \<open>The decimal digits of an integer, as a template literal prints it.\<close>

fun showNat :: "nat \<Rightarrow> string" where
  "showNat n =
     (if n < 10 then [''0123456789'' ! n]
      else showNat (n div 10) @ [''0123456789'' ! (n mod 10)])"

declare showNat.simps [simp del]

definition showInt :: "int \<Rightarrow> string" where
  "showInt i = (if i < 0 then ''-'' @ showNat (nat (- i)) else showNat (nat i))"

text \<open>
  A number inside a template literal, for the results of \<^verbatim>\<open>Math.round\<close>: an integer
  (below \<open>10 ^ 21\<close>) prints its decimal digits.
\<close>

definition numString :: "jsnum \<Rightarrow> string" where
  "numString x =
     (case x of
        Fin r \<Rightarrow> showInt \<lfloor>r\<rfloor>
      | PosInf \<Rightarrow> ''Infinity''
      | NegInf \<Rightarrow> ''-Infinity''
      | NaN \<Rightarrow> ''NaN'')"

text \<open>The em dash U+2014 the formatters return for a missing value, in UTF-8.\<close>

definition dash :: string where
  "dash = [CHR 0xE2, CHR 0x80, CHR 0x94]"

section \<open>Strings\<close>

text \<open>
  Strings are ASCII: \<open>toUpperCase\<close> maps \<open>a\<close>..\<open>z\<close> to \<open>A\<close>..\<open>Z\<close> and keeps every
  other character, and white space is the six ASCII characters of the class \<^verbatim>\<open>\s\<close>.
\<close>

definition toUpperChar :: "char \<Rightarrow> char" where
  "toUpperChar c =
     (case map_of (zip ''abcdefghijklmnopqrstuvwxyz'' ''ABCDEFGHIJKLMNOPQRSTUVWXYZ'') c of
        Some u \<Rightarrow> u
      | None \<Rightarrow> c)"

definition toUpperCase :: "string \<Rightarrow> string" where
  "toUpperCase s = map toUpperChar s"

definition isSpace :: "char \<Rightarrow> bool" where
  "isSpace c = (c \<in> set [CHR 0x09, CHR 0x0A, CHR 0x0B, CHR 0x0C, CHR 0x0D, CHR 0x20])"

definition trim :: "string \<Rightarrow> string" where
  "trim s = rev (dropWhile isSpace (rev (dropWhile isSpace s)))"

text \<open>The separator class \<^verbatim>\<open>[\s,;|]\<close>.\<close>

definition isSep :: "char \<Rightarrow> bool" where
  "isSep c = (isSpace c \<or> c \<in> set '',;|'')"

text \<open>
  \<^verbatim>\<open>v.split(/[\s,;|]+/)\<close>: the pieces between maximal runs of separators; a
  separator at either end leaves an empty piece there. \<open>cur\<close> is the piece being
  read, reversed.
\<close>

function splitAcc :: "string \<Rightarrow> string \<Rightarrow> string list" where
  "splitAcc cur [] = [rev cur]"
| "splitAcc cur (c # cs) =
     (if isSep c then rev cur # splitAcc [] (dropWhile isSep cs)
      else splitAcc (c # cur) cs)"
  by pat_completeness auto
termination
  by (relation "measure (\<lambda>(cur, cs). length cs)")
     (auto simp: le_imp_less_Suc length_dropWhile_le)

definition splitSeps :: "string \<Rightarrow> string list" where
  "splitSeps s = splitAcc [] s"

section \<open>Data model\<close>

record EquityTick =
  symbol :: string
  tick_last :: "real nullable"
  tick_bid :: "real nullable"
  tick_ask :: "real nullable"
  tick_iv :: "real nullable"
  tick_ts :: "real option"

text \<open>
  \<^verbatim>\<open>EquityPayload = EquityTick[] | { rows?: EquityTick[]; es_spx_basis?: ... }\<close>.
  The handler reads \<open>es_spx_basis\<close> through \<^verbatim>\<open>any\<close> and tests its type, so it is
  any JSON value; \<open>rows\<close> is \<open>None\<close> when absent or not an array; \<open>NoPayload\<close> is
  a null or absent \<^verbatim>\<open>msg.data\<close>.
\<close>

datatype equity_payload =
    TickArray "EquityTick list"
  | TickEnvelope "EquityTick list option" "json option"
  | NoPayload

datatype opt_right = C | P

record OptionKey =
  underlying :: string
  expiration :: string
  strike :: real
  right :: opt_right

record OptionRow = OptionKey +
  row_last :: "real nullable"
  row_bid :: "real nullable"
  row_ask :: "real nullable"
  row_ts :: "real option"

datatype flow_right = CALL | PUT

datatype flow_side = BUY | SELL | UNKNOWN

text \<open>The argument type of \<open>notionalOf\<close>; \<open>FlowBase\<close> has these fields and more.\<close>

record FlowAmounts =
  notional :: "real option"
  qty :: "real option"
  price :: "real option"

record FlowBase = FlowAmounts +
  ul :: string
  flow_right :: flow_right
  flow_strike :: real
  expiry :: string
  side :: flow_side
  prints :: "real option"
  venue :: "string option"
  flow_ts :: real

type_synonym Sweep = FlowBase

type_synonym Block = FlowBase

record Watchlist =
  wl_equities :: "string list"
  wl_options :: "OptionKey list"

text \<open>
  The argument of \<open>parseSymbolsList\<close>, declared \<^verbatim>\<open>unknown\<close>: an array (of strings, as
  \<^verbatim>\<open>Watchlist.equities\<close> is declared, so that \<^verbatim>\<open>String\<close> leaves each element as it
  is), a string, or anything else.
\<close>

datatype unknown = UArray "string list" | UString string | UOther

text \<open>
  The argument of \<open>normalizeWatchlist\<close>, declared \<^verbatim>\<open>any\<close>; \<open>raw_options\<close> is
  \<open>None\<close> when \<^verbatim>\<open>raw.options\<close> is not an array.
\<close>

record RawWatchlist =
  raw_equities :: unknown
  raw_options :: "OptionKey list option"

section \<open>Helpers\<close>

definition orZero :: "real option \<Rightarrow> real" where
  "orZero x = (case x of None \<Rightarrow> 0 | Some v \<Rightarrow> v)"

definition notionalOf :: "'a FlowAmounts_scheme \<Rightarrow> jsnum" where
  "notionalOf m =
     Math_round (case notional m of
                   Some n \<Rightarrow> Fin n
                 | None \<Rightarrow> mul (mul (Fin (orZero (qty m))) (Fin (orZero (price m)))) (Fin 100))"

text \<open>
  \<^verbatim>\<open>TICKER_OK = /^[A-Z0-9][A-Z0-9.\-_/]{0,9}$/\<close>: one character of the first class,
  then at most nine of the second, and nothing else.
\<close>

definition isUpperAlnum :: "char \<Rightarrow> bool" where
  "isUpperAlnum c = (c \<in> set ''ABCDEFGHIJKLMNOPQRSTUVWXYZ0123456789'')"

definition isTickerTail :: "char \<Rightarrow> bool" where
  "isTickerTail c = (isUpperAlnum c \<or> c \<in> set ''.-_/'')"

definition TICKER_OK :: "string \<Rightarrow> bool" where
  "TICKER_OK s =
     (case s of
        [] \<Rightarrow> False
      | c # cs \<Rightarrow> isUpperAlnum c \<and> length cs \<le> 9 \<and> list_all isTickerTail cs)"

text \<open>
  \<^verbatim>\<open>Array.from(new Set(arr))\<close>: a set iterates in insertion order, so each value stays
  at its first occurrence. \<open>seen\<close> holds the values already kept.
\<close>

fun uniqAcc :: "'a list \<Rightarrow> 'a list \<Rightarrow> 'a list" where
  "uniqAcc seen [] = []"
| "uniqAcc seen (x # xs) =
     (if x \<in> set seen then uniqAcc seen xs else x # uniqAcc (x # seen) xs)"

definition uniq :: "'a list \<Rightarrow> 'a list" where
  "uniq arr = uniqAcc [] arr"

definition parseSymbolsList :: "unknown \<Rightarrow> string list" where
  "parseSymbolsList v =
     (let arr = (case v of
                   UArray xs \<Rightarrow> xs
                 | UString s \<Rightarrow> splitSeps s
                 | UOther \<Rightarrow> [])
      in uniq (filter TICKER_OK (map (\<lambda>s. toUpperCase (trim s)) arr)))"

text \<open>\<open>raw\<close> is \<open>None\<close> for a null or absent \<^verbatim>\<open>msg.data\<close>.\<close>

definition normalizeWatchlist :: "RawWatchlist option \<Rightarrow> Watchlist" where
  "normalizeWatchlist raw =
     \<lparr>wl_equities = parseSymbolsList (case raw of None \<Rightarrow> UOther | Some r \<Rightarrow> raw_equities r),
      wl_options = (case raw of
                      None \<Rightarrow> []
                    | Some r \<Rightarrow> (case raw_options r of None \<Rightarrow> [] | Some os \<Rightarrow> os))\<rparr>"

text \<open>\<^verbatim>\<open>s.toUpperCase().replace(/^\//, "")\<close>: upper case, then one leading slash removed.\<close>

definition normalizeSymbol :: "string \<Rightarrow> string" where
  "normalizeSymbol s =
     (case toUpperCase s of
        [] \<Rightarrow> []
      | c # cs \<Rightarrow> if c = CHR ''/'' then cs else c # cs)"

section \<open>Formatters\<close>

text \<open>
  \<^verbatim>\<open>Number(iv)\<close> on the values of the field \<^verbatim>\<open>iv?: number | null\<close> that the only call,
  \<^verbatim>\<open>marketFmt.iv(r.iv)\<close>, passes.
\<close>

definition Number :: "jsnum nullable \<Rightarrow> jsnum" where
  "Number x = (case x of Undefined \<Rightarrow> NaN | Null \<Rightarrow> Fin 0 | Val n \<Rightarrow> n)"

definition fmtIvPct :: "jsnum nullable \<Rightarrow> string" where
  "fmtIvPct iv =
     (case Number iv of
        Fin n \<Rightarrow>
          if n \<le> 0 then dash
          else (let pctRaw = (if n > 1.5 then Fin n else mul (Fin n) (Fin 100));
                    pct = Math_min pctRaw (Fin 300)
                in numString (Math_round pct) @ ''%'')
      | _ \<Rightarrow> dash)"

section \<open>State store and message dispatch\<close>

record store =
  equity :: "string \<rightharpoonup> EquityTick"
  options :: "OptionRow list"
  sweeps :: "Sweep list"
  blocks :: "Block list"
  wl :: Watchlist
  err :: "string option"
  basis :: json

definition init_store :: store where
  "init_store =
     \<lparr>equity = Map.empty, options = [], sweeps = [], blocks = [],
      wl = \<lparr>wl_equities = [], wl_options = []\<rparr>, err = None, basis = JNull\<rparr>"

text \<open>
  The envelope \<^verbatim>\<open>{topic, data}\<close>, one constructor for each \<^verbatim>\<open>case\<close> label of the
  handler, its payload at the type the handler casts \<^verbatim>\<open>msg.data\<close> to; \<open>UnknownTopic\<close>
  stands for every envelope whose topic is none of the six labels and carries that
  topic (absent, or any value). \<open>BasisMsg\<close> carries the property \<open>es_spx_basis\<close> of
  \<^verbatim>\<open>msg.data || {}\<close>.
\<close>

datatype message =
    EquityTs equity_payload
  | BasisMsg "json option"
  | OptionsTs "OptionRow list"
  | SweepsMsg "Sweep list"
  | BlocksMsg "Block list"
  | WatchlistMsg "RawWatchlist option"
  | UnknownTopic "json option"

text \<open>
  What the \<^verbatim>\<open>try\<close> block of the handler meets: \<^verbatim>\<open>JSON.parse\<close> throws (with the
  message of the error), or returns \<^verbatim>\<open>null\<close>, on which reading \<^verbatim>\<open>msg.topic\<close> throws
  (with the message of that error), or returns an envelope.
\<close>

datatype frame = DecodeError string | NullFrame string | Envelope message

text \<open>The loop of the \<^verbatim>\<open>setEquity\<close> updater over \<open>arr\<close>, on the copy \<open>next\<close>.\<close>

fun mergeTicks :: "(string \<rightharpoonup> EquityTick) \<Rightarrow> EquityTick list \<Rightarrow> (string \<rightharpoonup> EquityTick)" where
  "mergeTicks next [] = next"
| "mergeTicks next (t # arr) =
     (let sym = normalizeSymbol (symbol t)
      in mergeTicks (next(sym \<mapsto> t\<lparr>symbol := sym\<rparr>)) arr)"

text \<open>\<^verbatim>\<open>prev.slice(-n)\<close>: the last \<open>n\<close> elements, all of them when there are fewer.\<close>

definition sliceLast :: "nat \<Rightarrow> 'a list \<Rightarrow> 'a list" where
  "sliceLast n prev = drop (length prev - n) prev"

text \<open>The constants \<open>arr\<close> and \<open>maybeBasis\<close> of the \<^verbatim>\<open>equity_ts\<close> case.\<close>

definition arr :: "equity_payload \<Rightarrow> EquityTick list" where
  "arr payload =
     (case payload of
        TickArray ts \<Rightarrow> ts
      | TickEnvelope (Some ts) b \<Rightarrow> ts
      | TickEnvelope None b \<Rightarrow> []
      | NoPayload \<Rightarrow> [])"

definition maybeBasis :: "equity_payload \<Rightarrow> json" where
  "maybeBasis payload =
     (case payload of
        TickArray ts \<Rightarrow> JNull
      | TickEnvelope r (Some b) \<Rightarrow> b
      | TickEnvelope r None \<Rightarrow> JNull
      | NoPayload \<Rightarrow> JNull)"

text \<open>\<^verbatim>\<open>typeof x === "number" && Number.isFinite(x)\<close>.\<close>

definition isFiniteNumber :: "json \<Rightarrow> bool" where
  "isFiniteNumber x = (case x of JNum (Fin r) \<Rightarrow> True | _ \<Rightarrow> False)"

definition equityTs :: "store \<Rightarrow> equity_payload \<Rightarrow> store" where
  "equityTs s payload =
     (let s1 = s\<lparr>basis := (if isFiniteNumber (maybeBasis payload)
                           then maybeBasis payload else JNull)\<rparr>
      in if arr payload = [] then s1
         else s1\<lparr>equity := mergeTicks (equity s1) (arr payload)\<rparr>)"

fun onmessage :: "store \<Rightarrow> frame \<Rightarrow> store" where
  "onmessage s (DecodeError e) = s\<lparr>err := Some e\<rparr>"
| "onmessage s (NullFrame e) = s\<lparr>err := Some e\<rparr>"
| "onmessage s (Envelope (EquityTs payload)) = equityTs s payload"
| "onmessage s (Envelope (BasisMsg es_spx_basis)) =
     s\<lparr>basis := (case es_spx_basis of None \<Rightarrow> JNull | Some v \<Rightarrow> v)\<rparr>"
| "onmessage s (Envelope (OptionsTs d)) = s\<lparr>options := d\<rparr>"
| "onmessage s (Envelope (SweepsMsg d)) = s\<lparr>sweeps := sliceLast 400 (sweeps s) @ d\<rparr>"
| "onmessage s (Envelope (BlocksMsg d)) = s\<lparr>blocks := sliceLast 400 (blocks s) @ d\<rparr>"
| "onmessage s (Envelope (WatchlistMsg d)) = s\<lparr>wl := normalizeWatchlist d\<rparr>"
| "onmessage s (Envelope (UnknownTopic t)) = s"

text \<open>Frames are handled one at a time, in arrival order.\<close>

definition onmessages :: "store \<Rightarrow> frame list \<Rightarrow> store" where
  "onmessages s fs = foldl onmessage s fs"

section \<open>Connection manager\<close>

datatype ws_state = Idle | Connecting | Open | Closed | Error

text \<open>The two variables of the effect's closure and the observable status.\<close>

record conn =
  stopped :: bool
  retry :: nat
  wsState :: ws_state

definition init_conn :: conn where
  "init_conn = \<lparr>stopped = False, retry = 0, wsState = Idle\<rparr>"

definition connect :: "conn \<Rightarrow> conn" where
  "connect c = (if stopped c then c else c\<lparr>wsState := Connecting\<rparr>)"

definition onopen :: "conn \<Rightarrow> conn" where
  "onopen c = c\<lparr>wsState := Open, retry := 0\<rparr>"

text \<open>
  \<open>onclose\<close> returns the new state and the delay of the timer it sets, if it sets one:
  \<^verbatim>\<open>Math.min(1000 * Math.pow(2, retry++), 10000)\<close>.
\<close>

definition onclose :: "conn \<Rightarrow> conn \<times> nat option" where
  "onclose c =
     (let c1 = c\<lparr>wsState := Closed\<rparr>
      in if \<not> stopped c1
         then (let backoff = min (1000 * 2 ^ retry c1) 10000
               in (c1\<lparr>retry := retry c1 + 1\<rparr>, Some backoff))
         else (c1, None))"

definition onerror :: "conn \<Rightarrow> conn" where
  "onerror c = c\<lparr>wsState := Error\<rparr>"

text \<open>The cleanup of the effect; the close it asks for arrives as a later \<open>onclose\<close>.\<close>

definition cleanup :: "conn \<Rightarrow> conn" where
  "cleanup c = c\<lparr>stopped := True\<rparr>"

text \<open>
  The events the connection manager reacts to; \<open>EvTimer\<close> is a reconnect timer
  firing, which calls \<open>connect\<close>.
\<close>

datatype event = EvOpen | EvClose | EvError | EvTimer | EvCleanup

fun step :: "conn \<Rightarrow> event \<Rightarrow> conn" where
  "step c EvOpen = onopen c"
| "step c EvClose = fst (onclose c)"
| "step c EvError = onerror c"
| "step c EvTimer = connect c"
| "step c EvCleanup = cleanup c"

definition run :: "conn \<Rightarrow> event list \<Rightarrow> conn" where
  "run c evs = foldl step c evs"

section \<open>Derived views\<close>

definition rowKey :: "'a OptionKey_scheme \<Rightarrow> string" where
  "rowKey r = underlying r @ '':'' @ expiration r"

text \<open>
  The loop of \<open>optGrouped\<close> over the rows; the \<^verbatim>\<open>Map\<close> is a list of pairs in
  insertion order, where setting a key that is present keeps its place.
\<close>

fun groupRows :: "(string \<times> 'a OptionKey_scheme list) list \<Rightarrow> 'a OptionKey_scheme list \<Rightarrow> (string \<times> 'a OptionKey_scheme list) list" where
  "groupRows m [] = m"
| "groupRows m (r # rs) =
     (let k = rowKey r;
          arr = (case map_of m k of Some a \<Rightarrow> a | None \<Rightarrow> [])
      in groupRows (AList.update k (arr @ [r]) m) rs)"

text \<open>\<^verbatim>\<open>rows.sort((a, b) => a.strike - b.strike)\<close>: a stable sort, ascending by strike.\<close>

definition optGrouped :: "'a OptionKey_scheme list \<Rightarrow> (string \<times> 'a OptionKey_scheme list) list" where
  "optGrouped opts = map (\<lambda>(k, rows). (k, sort_key strike rows)) (groupRows [] opts)"

section \<open>The specification's wording\<close>

text \<open>
  Ticker validity as the specification words it: 1 to 10 characters, the first
  alphanumeric, the others alphanumeric or one of \<open>. - _ /\<close>.
\<close>

definition isAlnum :: "char \<Rightarrow> bool" where
  "isAlnum c =
     (c \<in> set ''ABCDEFGHIJKLMNOPQRSTUVWXYZabcdefghijklmnopqrstuvwxyz0123456789'')"

definition ticker_valid :: "string \<Rightarrow> bool" where
  "ticker_valid s =
     (1 \<le> length s \<and> length s \<le> 10 \<and> isAlnum (hd s) \<and>
      (\<forall>c \<in> set (tl s). isAlnum c \<or> c \<in> set ''.-_/''))"

text \<open>Each value at its first occurrence: the positions whose value has not come before.\<close>

definition first_occurrences :: "'a list \<Rightarrow> 'a list" where
  "first_occurrences xs =
     map (\<lambda>i. xs ! i) (filter (\<lambda>i. xs ! i \<notin> set (take i xs)) [0..<length xs])"

text \<open>
  The number of consecutive failures at the end of a trace of events: closes since the
  last successful open.
\<close>

definition failures :: "event list \<Rightarrow> nat" where
  "failures evs =
     length (filter (\<lambda>ev. ev = EvClose) (takeWhile (\<lambda>ev. ev \<noteq> EvOpen) (rev evs)))"

text \<open>The ticks a frame carries on the topic \<^verbatim>\<open>equity_ts\<close>; none on any other frame.\<close>

fun ticksOf :: "frame \<Rightarrow> EquityTick list" where
  "ticksOf (Envelope (EquityTs payload)) = arr payload"
| "ticksOf f = []"

section \<open>Rounding\<close>

lemmas double_eval =
  double_def exponent_def pow2_def roundTiesToEven_def bitLength.simps Let_def

lemma pow2_pos: "0 < pow2 q"
  by (simp add: pow2_def)

lemma roundTiesToEven_nonneg: "0 \<le> x \<Longrightarrow> 0 \<le> roundTiesToEven x"
  by (simp add: roundTiesToEven_def Let_def)

lemma double_finite:
  assumes "\<bar>x\<bar> < 2 ^ 1024 - 2 ^ 970"
  shows "\<exists>p. double x = Fin p \<and> (0 \<le> x \<longrightarrow> 0 \<le> p)"
proof (cases "x = 0")
  case True
  then show ?thesis by (simp add: double_def)
next
  case False
  let ?q = "max (exponent \<bar>x\<bar>) (- 1022) - 52"
  have d: "double x = Fin (of_int (roundTiesToEven (x / pow2 ?q)) * pow2 ?q)"
    using False assms by (simp add: double_def Let_def)
  have "0 \<le> x \<Longrightarrow> 0 \<le> of_int (roundTiesToEven (x / pow2 ?q)) * pow2 ?q"
    using pow2_pos [of ?q] roundTiesToEven_nonneg [of "x / pow2 ?q"] by simp
  with d show ?thesis by blast
qed

section \<open>First occurrences\<close>

lemma first_occurrences_Nil: "first_occurrences [] = []"
  by (simp add: first_occurrences_def)

lemma first_occurrences_snoc:
  "first_occurrences (xs @ [x]) =
     (if x \<in> set xs then first_occurrences xs else first_occurrences xs @ [x])"
proof -
  let ?P = "\<lambda>i. (xs @ [x]) ! i \<notin> set (take i (xs @ [x]))"
  let ?Q = "\<lambda>i. xs ! i \<notin> set (take i xs)"
  have a: "filter ?P [0..<length xs] = filter ?Q [0..<length xs]"
    by (rule filter_cong) (auto simp: nth_append)
  have b: "map (\<lambda>i. (xs @ [x]) ! i) (filter ?Q [0..<length xs])
           = map (\<lambda>i. xs ! i) (filter ?Q [0..<length xs])"
    by (rule map_cong) (auto simp: nth_append)
  have "first_occurrences (xs @ [x]) =
          map (\<lambda>i. (xs @ [x]) ! i) (filter ?P ([0..<length xs] @ [length xs]))"
    by (simp add: first_occurrences_def)
  also have "\<dots> = map (\<lambda>i. (xs @ [x]) ! i) (filter ?P [0..<length xs])
                   @ map (\<lambda>i. (xs @ [x]) ! i) (filter ?P [length xs])"
    by (simp only: filter_append map_append)
  also have "map (\<lambda>i. (xs @ [x]) ! i) (filter ?P [0..<length xs]) = first_occurrences xs"
    by (simp only: a b first_occurrences_def)
  also have "map (\<lambda>i. (xs @ [x]) ! i) (filter ?P [length xs]) = (if x \<in> set xs then [] else [x])"
    by simp
  finally show ?thesis by simp
qed

lemma set_first_occurrences: "set (first_occurrences xs) = set xs"
  by (induction xs rule: rev_induct)
     (auto simp: first_occurrences_Nil first_occurrences_snoc)

lemma distinct_first_occurrences: "distinct (first_occurrences xs)"
  by (induction xs rule: rev_induct)
     (auto simp: first_occurrences_Nil first_occurrences_snoc set_first_occurrences)

lemma uniqAcc_snoc:
  "uniqAcc seen (xs @ [x]) =
     uniqAcc seen xs @ (if x \<in> set seen \<union> set xs then [] else [x])"
  by (induction xs arbitrary: seen) auto

lemma uniq_first_occurrences: "uniq xs = first_occurrences xs"
  by (induction xs rule: rev_induct)
     (simp_all add: uniq_def uniqAcc_snoc first_occurrences_Nil first_occurrences_snoc)

section \<open>Equity map\<close>

lemma mergeTicks_append: "mergeTicks m (a @ b) = mergeTicks (mergeTicks m a) b"
  by (induction a arbitrary: m) (simp_all add: Let_def)

lemma mergeTicks_lookup:
  "mergeTicks m ts k =
     (case filter (\<lambda>t. normalizeSymbol (symbol t) = k) ts of
        [] \<Rightarrow> m k
      | f # fs \<Rightarrow> Some ((last (f # fs))\<lparr>symbol := k\<rparr>))"
proof (induction ts arbitrary: m)
  case Nil
  then show ?case by simp
next
  case (Cons t ts)
  show ?case
    by (simp add: Cons.IH Let_def split: list.splits)
qed

lemma equity_onmessage: "equity (onmessage s f) = mergeTicks (equity s) (ticksOf f)"
proof (cases f)
  case (Envelope m)
  then show ?thesis
    by (cases m) (simp_all add: equityTs_def Let_def)
qed simp_all

lemma equity_onmessages:
  "equity (onmessages s fs) = mergeTicks (equity s) (concat (map ticksOf fs))"
proof (induction fs arbitrary: s)
  case Nil
  then show ?case by (simp add: onmessages_def)
next
  case (Cons f fs)
  have "onmessages s (f # fs) = onmessages (onmessage s f) fs"
    by (simp add: onmessages_def)
  then show ?case
    by (simp add: Cons.IH equity_onmessage mergeTicks_append)
qed

text \<open>
  C1. Over any sequence of frames, the entry of the equity map at a canonical symbol
  \<open>k\<close> is the last tick among all those the \<^verbatim>\<open>equity_ts\<close> frames carried for \<open>k\<close>,
  whole (no field of an earlier tick survives), with its symbol set to \<open>k\<close>; a symbol no
  tick came for keeps the entry it had. The map has one entry for a key by its type.
  \<^verbatim>\<open>/ES\<close> and \<^verbatim>\<open>ES\<close> have the same canonical symbol.
\<close>

theorem equity_latest_tick_wins:
  "(let ts = filter (\<lambda>t. normalizeSymbol (symbol t) = k) (concat (map ticksOf fs))
    in (ts \<noteq> [] \<longrightarrow> equity (onmessages s fs) k = Some ((last ts)\<lparr>symbol := k\<rparr>))
       \<and> (ts = [] \<longrightarrow> equity (onmessages s fs) k = equity s k))
   \<and> normalizeSymbol ''/ES'' = ''ES'' \<and> normalizeSymbol ''ES'' = ''ES''"
  by (simp add: Let_def equity_onmessages mergeTicks_lookup normalizeSymbol_def
        toUpperCase_def toUpperChar_def split: list.splits)

theorem equity_latest_tick_wins_witness:
  "equity (onmessages init_store
       [Envelope (EquityTs (TickArray
          [\<lparr>symbol = ''/es'', tick_last = Val 4500, tick_bid = Val 4499, tick_ask = Undefined,
            tick_iv = Null, tick_ts = Some 1\<rparr>])),
        DecodeError ''bad'',
        Envelope (EquityTs (TickEnvelope (Some
          [\<lparr>symbol = ''SPX'', tick_last = Val 1, tick_bid = Undefined, tick_ask = Undefined,
            tick_iv = Undefined, tick_ts = None\<rparr>,
           \<lparr>symbol = ''ES'', tick_last = Val 4501, tick_bid = Undefined, tick_ask = Undefined,
            tick_iv = Undefined, tick_ts = None\<rparr>]) None))]) ''ES''
   = Some \<lparr>symbol = ''ES'', tick_last = Val 4501, tick_bid = Undefined, tick_ask = Undefined,
            tick_iv = Undefined, tick_ts = None\<rparr>
   \<and> equity (onmessages init_store [Envelope (EquityTs NoPayload)]) ''ES'' = None"
  using equity_latest_tick_wins [of "''ES''" "[Envelope (EquityTs (TickArray
          [\<lparr>symbol = ''/es'', tick_last = Val 4500, tick_bid = Val 4499, tick_ask = Undefined,
            tick_iv = Null, tick_ts = Some 1\<rparr>])),
        DecodeError ''bad'',
        Envelope (EquityTs (TickEnvelope (Some
          [\<lparr>symbol = ''SPX'', tick_last = Val 1, tick_bid = Undefined, tick_ask = Undefined,
            tick_iv = Undefined, tick_ts = None\<rparr>,
           \<lparr>symbol = ''ES'', tick_last = Val 4501, tick_bid = Undefined, tick_ask = Undefined,
            tick_iv = Undefined, tick_ts = None\<rparr>]) None))]" init_store]
    equity_latest_tick_wins [of "''ES''" "[Envelope (EquityTs NoPayload)]" init_store]
  by (simp add: arr_def normalizeSymbol_def toUpperCase_def toUpperChar_def init_store_def)

section \<open>Bounded event buffers\<close>

lemma sliceLast_suffix: "suffix (sliceLast n xs) xs"
  by (simp add: sliceLast_def suffix_drop)

lemma length_sliceLast: "length (sliceLast n xs) = min n (length xs)"
  by (simp add: sliceLast_def)

text \<open>
  C2. A batch \<open>d\<close> on the topic \<^verbatim>\<open>sweeps\<close> or \<^verbatim>\<open>blocks\<close> leaves the buffer as the
  kept part followed by \<open>d\<close>, where the kept part is the end of the old buffer, in
  order, 400 entries long or the whole old buffer when that is shorter; so the new
  length is at most 400 plus the size of the batch.
\<close>

theorem buffers_prune_then_append:
  "(let old = sweeps s; new = sweeps (onmessage s (Envelope (SweepsMsg d)));
        kept = take (length new - length d) new
    in length new \<le> 400 + length d
       \<and> new = kept @ d
       \<and> suffix kept old
       \<and> length kept = min 400 (length old))
   \<and> (let old = blocks s; new = blocks (onmessage s (Envelope (BlocksMsg d)));
        kept = take (length new - length d) new
    in length new \<le> 400 + length d
       \<and> new = kept @ d
       \<and> suffix kept old
       \<and> length kept = min 400 (length old))"
  by (simp add: Let_def sliceLast_suffix length_sliceLast)

section \<open>Reconnect delay\<close>

lemma step_stopped: "EvCleanup \<noteq> ev \<Longrightarrow> stopped (step c ev) = stopped c"
  by (cases ev) (simp_all add: onopen_def onclose_def onerror_def connect_def Let_def)

lemma step_retry:
  "\<not> stopped c \<Longrightarrow>
   retry (step c ev) = (if ev = EvOpen then 0 else if ev = EvClose then retry c + 1 else retry c)"
  by (cases ev) (simp_all add: onopen_def onclose_def onerror_def connect_def cleanup_def Let_def)

lemma failures_snoc:
  "failures (evs @ [ev]) = (if ev = EvOpen then 0 else if ev = EvClose then failures evs + 1 else failures evs)"
  by (simp add: failures_def)

lemma run_snoc: "run c (evs @ [ev]) = step (run c evs) ev"
  by (simp add: run_def)

lemma run_invariant:
  "EvCleanup \<notin> set evs \<Longrightarrow> \<not> stopped c \<Longrightarrow> retry c = 0 \<Longrightarrow>
   \<not> stopped (run c evs) \<and> retry (run c evs) = failures evs"
proof (induction evs rule: rev_induct)
  case Nil
  then show ?case by (simp add: run_def failures_def)
next
  case (snoc ev evs)
  then have ih: "\<not> stopped (run c evs)" "retry (run c evs) = failures evs" and ne: "EvCleanup \<noteq> ev"
    by auto
  show ?case
    using ih ne by (simp add: run_snoc step_stopped step_retry failures_snoc)
qed

text \<open>
  C3. After any events without a cleanup, the close that comes next sets a timer of
  \<open>min (1000 * 2 ^ k) 10000\<close> milliseconds, where \<open>k\<close> is the number of closes since
  the last successful open (or since the start); right after a successful open the
  delay is 1000 again: the delays run 1000, 2000, 4000, 8000, 10000,
  10000.
\<close>

theorem reconnect_delay:
  "EvCleanup \<notin> set evs \<longrightarrow>
     snd (onclose (run init_conn evs)) = Some (min (1000 * 2 ^ failures evs) 10000)
     \<and> snd (onclose (run init_conn (evs @ [EvOpen]))) = Some 1000"
proof
  assume a: "EvCleanup \<notin> set evs"
  have b: "EvCleanup \<notin> set (evs @ [EvOpen])" using a by simp
  have i: "\<not> stopped init_conn" "retry init_conn = 0" by (simp_all add: init_conn_def)
  from run_invariant [OF a i] run_invariant [OF b i]
  show "snd (onclose (run init_conn evs)) = Some (min (1000 * 2 ^ failures evs) 10000)
     \<and> snd (onclose (run init_conn (evs @ [EvOpen]))) = Some 1000"
    by (simp add: onclose_def Let_def failures_snoc)
qed

theorem reconnect_delay_witness:
  "snd (onclose (run init_conn [])) = Some 1000
   \<and> snd (onclose (run init_conn [EvTimer, EvError, EvClose])) = Some 2000
   \<and> snd (onclose (run init_conn [EvClose, EvTimer, EvClose])) = Some 4000
   \<and> snd (onclose (run init_conn [EvClose, EvTimer, EvClose, EvTimer, EvClose])) = Some 8000
   \<and> snd (onclose (run init_conn [EvClose, EvTimer, EvClose, EvTimer, EvClose, EvTimer, EvClose])) = Some 10000
   \<and> snd (onclose (run init_conn [EvClose, EvTimer, EvClose, EvTimer, EvClose, EvTimer, EvClose, EvTimer, EvClose])) = Some 10000
   \<and> snd (onclose (run init_conn [EvClose, EvTimer, EvClose, EvTimer, EvOpen])) = Some 1000"
  using reconnect_delay [of "[]"]
        reconnect_delay [of "[EvTimer, EvError, EvClose]"]
        reconnect_delay [of "[EvClose, EvTimer, EvClose]"]
        reconnect_delay [of "[EvClose, EvTimer, EvClose, EvTimer, EvClose]"]
        reconnect_delay [of "[EvClose, EvTimer, EvClose, EvTimer, EvClose, EvTimer, EvClose]"]
        reconnect_delay [of "[EvClose, EvTimer, EvClose, EvTimer, EvClose, EvTimer, EvClose, EvTimer, EvClose]"]
        reconnect_delay [of "[EvClose, EvTimer, EvClose, EvTimer]"]
  by (simp add: failures_def)

section \<open>Notional\<close>

text \<open>
  C4, as stated, fails: without a notional, \<open>qty = 10\<close> and \<open>price = 5\<close> do not give
  500.
\<close>

theorem notionalOf_qty10_price5_not_500:
  "notionalOf \<lparr>notional = None, qty = Some 10, price = Some 5\<rparr> \<noteq> Fin 500"
  by (simp add: notionalOf_def orZero_def double_eval)

text \<open>
  C4, amended. Without a notional, \<open>qty = 10\<close> and \<open>price = 5\<close> give
  \<open>10 * 5 * 100 = 5000\<close>.
\<close>

theorem notionalOf_qty10_price5_is_5000:
  "notionalOf \<lparr>notional = None, qty = Some 10, price = Some 5\<rparr> = Fin 5000"
  by (simp add: notionalOf_def orZero_def double_eval)

text \<open>
  C5, as stated, fails: a provided notional of 999.5 is not returned as it is, but
  rounded to 1000.
\<close>

theorem notionalOf_fractional_notional:
  "notionalOf \<lparr>notional = Some 999.5, qty = Some 1, price = Some 1\<rparr> = Fin 1000
   \<and> notionalOf \<lparr>notional = Some 999.5, qty = Some 1, price = Some 1\<rparr> \<noteq> Fin 999.5"
  by (simp add: notionalOf_def)

text \<open>
  C5, amended. \<open>notionalOf\<close> returns the provided notional rounded to the nearest
  integer (so an integer notional comes back as it is), and without one the rounded
  product of \<open>qty\<close>, \<open>price\<close> and 100, a missing \<open>qty\<close> or \<open>price\<close> counting as 0.
  The product is the one of the language, each multiplication giving the nearest
  double: where both products are exact the result is the rounded real product; with
  \<open>qty = 3\<close> and the price 1.115, whose double lies below 1.115, the product is 334.5
  and the result 335; a product that overflows gives infinity. A notional of 999 with
  \<open>qty = 1\<close> and \<open>price = 1\<close> gives 999.
\<close>

theorem notionalOf_rounds:
  "(notional m = Some n \<longrightarrow> notionalOf m = Fin (of_int (round n)))
   \<and> (notional m = Some (of_int i) \<longrightarrow> notionalOf m = Fin (of_int i))
   \<and> (notional m = None \<longrightarrow>
        notionalOf m =
          Math_round (mul (mul (Fin (case qty m of None \<Rightarrow> 0 | Some q \<Rightarrow> q))
                               (Fin (case price m of None \<Rightarrow> 0 | Some p \<Rightarrow> p)))
                          (Fin 100)))
   \<and> (notional m = None \<and> qty m = Some q \<and> price m = Some p
        \<and> double (q * p) = Fin (q * p) \<and> double (q * p * 100) = Fin (q * p * 100) \<longrightarrow>
        notionalOf m = Fin (of_int (round (q * p * 100))))
   \<and> notionalOf \<lparr>notional = Some 999, qty = Some 1, price = Some 1\<rparr> = Fin 999
   \<and> double 1.115 = Fin (5021513584518103 / 4503599627370496)
   \<and> notionalOf \<lparr>notional = None, qty = Some 3,
                   price = Some (5021513584518103 / 4503599627370496)\<rparr> = Fin 335
   \<and> notionalOf \<lparr>notional = None, qty = Some (2 ^ 600), price = Some (2 ^ 600)\<rparr> = PosInf"
proof -
  have a: "notional m = Some n \<longrightarrow> notionalOf m = Fin (of_int (round n))"
    by (simp add: notionalOf_def round_def)
  have b: "notional m = Some (of_int i) \<longrightarrow> notionalOf m = Fin (of_int i)"
    by (simp add: notionalOf_def)
  have c: "notional m = None \<longrightarrow>
        notionalOf m =
          Math_round (mul (mul (Fin (case qty m of None \<Rightarrow> 0 | Some q \<Rightarrow> q))
                               (Fin (case price m of None \<Rightarrow> 0 | Some p \<Rightarrow> p)))
                          (Fin 100))"
    by (simp add: notionalOf_def orZero_def)
  have d: "notional m = None \<and> qty m = Some q \<and> price m = Some p
        \<and> double (q * p) = Fin (q * p) \<and> double (q * p * 100) = Fin (q * p * 100) \<longrightarrow>
        notionalOf m = Fin (of_int (round (q * p * 100)))"
    by (simp add: notionalOf_def orZero_def round_def)
  have e: "notionalOf \<lparr>notional = Some 999, qty = Some 1, price = Some 1\<rparr> = Fin 999"
    by (simp add: notionalOf_def)
  have f: "double 1.115 = Fin (5021513584518103 / 4503599627370496)"
    by (simp add: double_eval)
  have g: "notionalOf \<lparr>notional = None, qty = Some 3,
                   price = Some (5021513584518103 / 4503599627370496)\<rparr> = Fin 335"
    by (simp add: notionalOf_def orZero_def double_eval)
  have h: "notionalOf \<lparr>notional = None, qty = Some (2 ^ 600), price = Some (2 ^ 600)\<rparr> = PosInf"
    by (simp add: notionalOf_def orZero_def double_def)
  from a b c d e f g h show ?thesis by (intro conjI)
qed

theorem notionalOf_rounds_witness:
  "notionalOf \<lparr>notional = Some 999.5, qty = Some 1, price = Some 1\<rparr> = Fin 1000
   \<and> notionalOf \<lparr>notional = Some 42, qty = None, price = None\<rparr> = Fin 42
   \<and> notionalOf \<lparr>notional = None, qty = Some 3, price = None\<rparr> = Fin 0
   \<and> notionalOf \<lparr>notional = None, qty = Some 2, price = Some 2.5\<rparr> = Fin 500"
  using notionalOf_rounds [where m = "\<lparr>notional = Some 999.5, qty = Some 1, price = Some 1\<rparr>"
                             and n = "999.5" and i = 0 and q = 0 and p = 0]
        notionalOf_rounds [where m = "\<lparr>notional = Some 42, qty = None, price = None\<rparr>"
                             and n = 0 and i = 42 and q = 0 and p = 0]
        notionalOf_rounds [where m = "\<lparr>notional = None, qty = Some 3, price = None\<rparr>"
                             and n = 0 and i = 0 and q = 0 and p = 0]
        notionalOf_rounds [where m = "\<lparr>notional = None, qty = Some 2, price = Some 2.5\<rparr>"
                             and n = 0 and i = 0 and q = 2 and p = "2.5"]
  by (simp add: round_def double_eval)

section \<open>Basis\<close>

lemma equity_ts_basis_validated:
  "basis (onmessage s (Envelope (EquityTs p))) =
     (if isFiniteNumber (maybeBasis p) then maybeBasis p else JNull)"
  by (simp add: equityTs_def Let_def)

text \<open>
  C6. On the topic \<^verbatim>\<open>basis\<close> a value that is not a finite number is stored as it is,
  where the topic \<^verbatim>\<open>equity_ts\<close> stores null for the same value.
\<close>

theorem basis_topic_stores_unvalidated:
  "basis (onmessage init_store (Envelope (BasisMsg (Some (JStr ''abc''))))) = JStr ''abc''
   \<and> basis (onmessage init_store (Envelope (BasisMsg (Some (JNum PosInf))))) = JNum PosInf
   \<and> basis (onmessage init_store (Envelope (EquityTs (TickEnvelope None (Some (JStr ''abc'')))))) = JNull
   \<and> basis (onmessage init_store (Envelope (EquityTs (TickEnvelope None (Some (JNum PosInf)))))) = JNull"
  by (simp add: equityTs_def maybeBasis_def isFiniteNumber_def arr_def)

section \<open>Watchlist symbols\<close>

lemma toUpperChar_alnum: "isAlnum (toUpperChar c) = isUpperAlnum (toUpperChar c)"
  by (simp add: isAlnum_def isUpperAlnum_def toUpperChar_def)

lemma TICKER_OK_iff_valid:
  assumes "\<forall>c \<in> set x. isAlnum c = isUpperAlnum c"
  shows "TICKER_OK x = ticker_valid x"
proof (cases x)
  case Nil
  then show ?thesis by (simp add: TICKER_OK_def ticker_valid_def)
next
  case (Cons c cs)
  with assms show ?thesis
    by (auto simp: TICKER_OK_def ticker_valid_def isTickerTail_def list_all_iff)
qed

lemma TICKER_OK_toUpperCase: "TICKER_OK (toUpperCase y) = ticker_valid (toUpperCase y)"
  by (rule TICKER_OK_iff_valid) (auto simp: toUpperCase_def toUpperChar_alnum)

lemma splitAcc_piece:
  "\<forall>c \<in> set p. \<not> isSep c \<Longrightarrow> splitAcc cur p = [rev cur @ p]"
  by (induction p arbitrary: cur) simp_all

lemma splitAcc_sep:
  "\<forall>c \<in> set p. \<not> isSep c \<Longrightarrow> isSep d \<Longrightarrow>
   splitAcc cur (p @ d # rest) = (rev cur @ p) # splitAcc [] (dropWhile isSep rest)"
  by (induction p arbitrary: cur) simp_all

lemma rev_dropWhile_takeWhile:
  "rev (dropWhile pr (rev u)) @ rev (takeWhile pr (rev u)) = u"
proof -
  have "rev (dropWhile pr (rev u)) @ rev (takeWhile pr (rev u))
        = rev (takeWhile pr (rev u) @ dropWhile pr (rev u))"
    by (simp only: rev_append)
  also have "\<dots> = u"
    by (simp only: takeWhile_dropWhile_id rev_rev_ident)
  finally show ?thesis .
qed

lemma trim_suffix_spaces:
  "trim t @ rev (takeWhile isSpace (rev (dropWhile isSpace t))) = dropWhile isSpace t"
  unfolding trim_def by (rule rev_dropWhile_takeWhile)

lemma trim_decomposition:
  "\<exists>a b. t = a @ trim t @ b \<and> (\<forall>x \<in> set a. isSpace x) \<and> (\<forall>x \<in> set b. isSpace x)"
proof -
  let ?a = "takeWhile isSpace t"
  let ?b = "rev (takeWhile isSpace (rev (dropWhile isSpace t)))"
  have "?a @ trim t @ ?b = ?a @ dropWhile isSpace t"
    by (simp only: trim_suffix_spaces)
  then have 1: "t = ?a @ trim t @ ?b"
    by simp
  have 3: "\<forall>x \<in> set ?a. isSpace x"
    by (auto dest: set_takeWhileD)
  have 4: "\<forall>x \<in> set ?b. isSpace x"
    by (auto dest: set_takeWhileD)
  from 1 3 4 show ?thesis by blast
qed

lemma trim_ends:
  assumes "trim t \<noteq> []"
  shows "\<not> isSpace (hd (trim t)) \<and> \<not> isSpace (last (trim t))"
proof -
  let ?u = "dropWhile isSpace t"
  let ?v = "dropWhile isSpace (rev ?u)"
  have v: "?v \<noteq> []" using assms by (simp add: trim_def)
  then have l: "\<not> isSpace (hd ?v)" by (rule hd_dropWhile)
  have "last (trim t) = hd ?v"
    using v by (simp add: trim_def last_rev)
  with l have a: "\<not> isSpace (last (trim t))" by simp
  have u: "?u \<noteq> []"
  proof
    assume e: "?u = []"
    have "?v = dropWhile isSpace (rev [])"
      by (simp only: e)
    then have "?v = []"
      by (simp only: rev.simps dropWhile.simps)
    with v show False by blast
  qed
  then have hu: "\<not> isSpace (hd ?u)" by (rule hd_dropWhile)
  have "hd ?u = hd (trim t @ rev (takeWhile isSpace (rev ?u)))"
    by (simp only: trim_suffix_spaces)
  then have "hd ?u = hd (trim t)"
    using assms by simp
  with hu a show ?thesis by simp
qed

text \<open>
  C7. On a sequence, \<open>parseSymbolsList\<close> trims and upper-cases each candidate, keeps
  those that are valid tickers in the specification's wording, and keeps each value at
  its first occurrence. A string is first split at the runs of separators (white
  space, comma, semicolon, pipe): a string without a separator is one piece, and a
  piece ends at the first separator, the split going on after the run that starts
  there. Anything else gives no symbols, and so does a candidate longer than 10
  characters. Trimming removes exactly the white space at the two ends, white space
  being tab, line feed, vertical tab, form feed, carriage return and space: a padded
  symbol is accepted, and each white-space character delimits.
\<close>

theorem parseSymbolsList_spec:
  "parseSymbolsList (UArray xs) =
     first_occurrences (filter ticker_valid (map (\<lambda>c. toUpperCase (trim c)) xs))
   \<and> parseSymbolsList (UString s) = parseSymbolsList (UArray (splitSeps s))
   \<and> ((\<forall>c \<in> set p. \<not> isSep c) \<longrightarrow>
        splitSeps p = [p]
        \<and> (isSep d \<longrightarrow> splitSeps (p @ d # rest) = p # splitSeps (dropWhile isSep rest)))
   \<and> parseSymbolsList UOther = []
   \<and> (10 < length (trim c) \<longrightarrow> parseSymbolsList (UArray [c]) = [])
   \<and> parseSymbolsList (UString ''NVDA'') = [''NVDA'']
   \<and> parseSymbolsList (UString ''AB,CD'') = [''AB'', ''CD'']
   \<and> parseSymbolsList (UString ''ABCDEFGHIJK'') = []
   \<and> parseSymbolsList (UString ''toolongsymbolname'') = []
   \<and> parseSymbolsList (UString ''1abc'') = [''1ABC'']
   \<and> parseSymbolsList (UString ''-abc'') = []
   \<and> isSpace ch = (ch \<in> set [CHR 0x09, CHR 0x0A, CHR 0x0B, CHR 0x0C, CHR 0x0D, CHR 0x20])
   \<and> isSep ch = (isSpace ch \<or> ch \<in> set '',;|'')
   \<and> (\<exists>a b. t = a @ trim t @ b \<and> (\<forall>x \<in> set a. isSpace x) \<and> (\<forall>x \<in> set b. isSpace x))
   \<and> (trim t \<noteq> [] \<longrightarrow> \<not> isSpace (hd (trim t)) \<and> \<not> isSpace (last (trim t)))
   \<and> parseSymbolsList (UArray ['' msft '']) = [''MSFT'']
   \<and> parseSymbolsList
        (UArray [[CHR 0x09, CHR 0x0A] @ ''spy'' @ [CHR 0x0D, CHR 0x0B, CHR 0x0C]]) = [''SPY'']
   \<and> parseSymbolsList (UArray [''ms ft'']) = []
   \<and> parseSymbolsList
        (UString (''AB'' @ [CHR 0x09] @ ''CD'' @ [CHR 0x0A] @ ''EF'' @ [CHR 0x0D, CHR 0x0A]
                  @ ''GH'' @ [CHR 0x0B] @ ''IJ'' @ [CHR 0x0C] @ ''KL;MN|OP QR,ST''))
      = [''AB'', ''CD'', ''EF'', ''GH'', ''IJ'', ''KL'', ''MN'', ''OP'', ''QR'', ''ST'']"
proof -
  have flt: "filter TICKER_OK (map (\<lambda>c. toUpperCase (trim c)) ys)
             = filter ticker_valid (map (\<lambda>c. toUpperCase (trim c)) ys)" for ys
    by (rule filter_cong) (auto simp: TICKER_OK_toUpperCase)
  have a: "parseSymbolsList (UArray xs) =
     first_occurrences (filter ticker_valid (map (\<lambda>c. toUpperCase (trim c)) xs))"
    by (simp add: parseSymbolsList_def uniq_first_occurrences flt)
  have b: "parseSymbolsList (UString s) = parseSymbolsList (UArray (splitSeps s))"
    by (simp add: parseSymbolsList_def)
  have c: "(\<forall>c \<in> set p. \<not> isSep c) \<longrightarrow>
        splitSeps p = [p]
        \<and> (isSep d \<longrightarrow> splitSeps (p @ d # rest) = p # splitSeps (dropWhile isSep rest))"
    by (simp add: splitSeps_def splitAcc_piece splitAcc_sep)
  have d: "parseSymbolsList UOther = []"
    by (simp add: parseSymbolsList_def uniq_def)
  have e: "10 < length (trim c) \<longrightarrow> parseSymbolsList (UArray [c]) = []"
    by (auto simp: parseSymbolsList_def uniq_def TICKER_OK_def toUpperCase_def
          split: list.splits)
  have f1: "parseSymbolsList (UString ''NVDA'') = [''NVDA'']"
    by code_simp
  have f2: "parseSymbolsList (UString ''AB,CD'') = [''AB'', ''CD'']"
    by code_simp
  have f3: "parseSymbolsList (UString ''ABCDEFGHIJK'') = []"
    by code_simp
  have f4: "parseSymbolsList (UString ''toolongsymbolname'') = []"
    by code_simp
  have f5: "parseSymbolsList (UString ''1abc'') = [''1ABC'']"
    by code_simp
  have f6: "parseSymbolsList (UString ''-abc'') = []"
    by code_simp
  have g1: "isSpace ch = (ch \<in> set [CHR 0x09, CHR 0x0A, CHR 0x0B, CHR 0x0C, CHR 0x0D, CHR 0x20])"
    by (simp only: isSpace_def)
  have g2: "isSep ch = (isSpace ch \<or> ch \<in> set '',;|'')"
    by (simp only: isSep_def)
  have g3: "\<exists>a b. t = a @ trim t @ b \<and> (\<forall>x \<in> set a. isSpace x) \<and> (\<forall>x \<in> set b. isSpace x)"
    by (rule trim_decomposition)
  have g4: "trim t \<noteq> [] \<longrightarrow> \<not> isSpace (hd (trim t)) \<and> \<not> isSpace (last (trim t))"
    using trim_ends by blast
  have h1: "parseSymbolsList (UArray ['' msft '']) = [''MSFT'']"
    by code_simp
  have h2: "parseSymbolsList
        (UArray [[CHR 0x09, CHR 0x0A] @ ''spy'' @ [CHR 0x0D, CHR 0x0B, CHR 0x0C]]) = [''SPY'']"
    by code_simp
  have h3: "parseSymbolsList (UArray [''ms ft'']) = []"
    by code_simp
  have h4: "parseSymbolsList
        (UString (''AB'' @ [CHR 0x09] @ ''CD'' @ [CHR 0x0A] @ ''EF'' @ [CHR 0x0D, CHR 0x0A]
                  @ ''GH'' @ [CHR 0x0B] @ ''IJ'' @ [CHR 0x0C] @ ''KL;MN|OP QR,ST''))
      = [''AB'', ''CD'', ''EF'', ''GH'', ''IJ'', ''KL'', ''MN'', ''OP'', ''QR'', ''ST'']"
    by code_simp
  from a b c d e f1 f2 f3 f4 f5 f6 g1 g2 g3 g4 h1 h2 h3 h4 show ?thesis
    by (intro conjI)
qed

theorem parseSymbolsList_spec_witness:
  "parseSymbolsList (UArray ['' aapl '', ''AAPL'', ''msft'', ''no good'', ''BRK.B'']) =
     [''AAPL'', ''MSFT'', ''BRK.B'']
   \<and> parseSymbolsList (UString ''spy; qqq|spy'') = [''SPY'', ''QQQ'']
   \<and> splitSeps ''AB'' = [''AB'']
   \<and> splitSeps ''AB, ;CD'' = [''AB'', ''CD'']
   \<and> parseSymbolsList (UArray [''ABCDEFGHIJKL'']) = []
   \<and> \<not> isSpace (hd (trim '' msft '')) \<and> \<not> isSpace (last (trim '' msft ''))"
proof -
  note spec = parseSymbolsList_spec
    [where xs = "['' aapl '', ''AAPL'', ''msft'', ''no good'', ''BRK.B'']"
       and s = "''spy; qqq|spy''" and p = "''AB''" and d = "CHR '',''" and rest = "'' ;CD''"
       and c = "''ABCDEFGHIJKL''" and ch = "CHR '' ''" and t = "'' msft ''"]
  have v: "first_occurrences (filter ticker_valid (map (\<lambda>c. toUpperCase (trim c))
             ['' aapl '', ''AAPL'', ''msft'', ''no good'', ''BRK.B''])) = [''AAPL'', ''MSFT'', ''BRK.B'']"
    by code_simp
  have w: "parseSymbolsList (UArray (splitSeps ''spy; qqq|spy'')) = [''SPY'', ''QQQ'']"
    by code_simp
  have h1: "\<forall>c \<in> set ''AB''. \<not> isSep c"
    by code_simp
  have h2: "isSep (CHR '','')"
    by code_simp
  have h3: "''AB'' # splitSeps (dropWhile isSep '' ;CD'') = [''AB'', ''CD'']"
    by code_simp
  have h4: "10 < length (trim ''ABCDEFGHIJKL'')"
    by code_simp
  have h5: "trim '' msft '' \<noteq> []"
    by code_simp
  have ap: "''AB'' @ CHR '','' # '' ;CD'' = ''AB, ;CD''"
    by simp
  from spec v w h1 h2 h3 h4 h5 ap show ?thesis
    by metis
qed

section \<open>Implied volatility\<close>

text \<open>
  C8. A finite input above 0 is scaled by 100 when it is at most 1.5 (the product being
  the one of the language, the nearest double) and taken as it is above 1.5, capped at
  300, rounded to an integer (between 0 and 300) and printed with a percent sign; an
  input that is not finite, absent, null, or at most 0 gives the dash. 0.23 gives 23%,
  45 gives 45%, 1.4 gives 140%, and -1 gives the dash; 1.115 gives 112% and 0.045
  gives 5%, their products with 100 being the doubles 111.5 and 4.5.
\<close>

theorem fmtIvPct_spec:
  "(0 < n \<and> n \<le> 1.5 \<longrightarrow>
      (\<exists>p. double (n * 100) = Fin p \<and> 0 \<le> p
           \<and> fmtIvPct (Val (Fin n)) = showInt (round (min p 300)) @ ''%''
           \<and> 0 \<le> round (min p 300) \<and> round (min p 300) \<le> 300))
   \<and> (1.5 < n \<longrightarrow>
        fmtIvPct (Val (Fin n)) = showInt (round (min n 300)) @ ''%''
        \<and> 0 \<le> round (min n 300) \<and> round (min n 300) \<le> 300)
   \<and> (n \<le> 0 \<longrightarrow> fmtIvPct (Val (Fin n)) = dash)
   \<and> fmtIvPct (Val NaN) = dash \<and> fmtIvPct (Val PosInf) = dash
   \<and> fmtIvPct (Val NegInf) = dash \<and> fmtIvPct Undefined = dash \<and> fmtIvPct Null = dash
   \<and> fmtIvPct (Val (double 0.23)) = ''23%''
   \<and> fmtIvPct (Val (double 45)) = ''45%''
   \<and> fmtIvPct (Val (double 1.4)) = ''140%''
   \<and> fmtIvPct (Val (double (- 1))) = dash
   \<and> fmtIvPct (Val (double 1.115)) = ''112%''
   \<and> fmtIvPct (Val (double 0.045)) = ''5%''"
proof -
  have hi: "round (min y 300) \<le> 300" for y :: real
  proof -
    have "round (min y 300) \<le> round (300::real)"
      by (rule round_mono) simp
    then show ?thesis by simp
  qed
  have lo: "0 \<le> y \<Longrightarrow> 0 \<le> round (min y 300)" for y :: real
    by (simp add: round_def)
  have a: "0 < n \<and> n \<le> 1.5 \<longrightarrow>
      (\<exists>p. double (n * 100) = Fin p \<and> 0 \<le> p
           \<and> fmtIvPct (Val (Fin n)) = showInt (round (min p 300)) @ ''%''
           \<and> 0 \<le> round (min p 300) \<and> round (min p 300) \<le> 300)"
  proof
    assume n: "0 < n \<and> n \<le> 1.5"
    then have "\<bar>n * 100\<bar> < 2 ^ 1024 - 2 ^ 970" by simp
    from double_finite [OF this] n obtain p
      where p: "double (n * 100) = Fin p" "0 \<le> p" by auto
    have "fmtIvPct (Val (Fin n)) = showInt (round (min p 300)) @ ''%''"
      using n p by (simp add: fmtIvPct_def Number_def Let_def numString_def round_def)
    with p hi [of p] lo [of p] show "\<exists>p. double (n * 100) = Fin p \<and> 0 \<le> p
           \<and> fmtIvPct (Val (Fin n)) = showInt (round (min p 300)) @ ''%''
           \<and> 0 \<le> round (min p 300) \<and> round (min p 300) \<le> 300"
      by blast
  qed
  have b: "1.5 < n \<longrightarrow>
        fmtIvPct (Val (Fin n)) = showInt (round (min n 300)) @ ''%''
        \<and> 0 \<le> round (min n 300) \<and> round (min n 300) \<le> 300"
    using hi [of n] lo [of n]
    by (simp add: fmtIvPct_def Number_def Let_def numString_def round_def)
  have c: "n \<le> 0 \<longrightarrow> fmtIvPct (Val (Fin n)) = dash"
    "fmtIvPct (Val NaN) = dash" "fmtIvPct (Val PosInf) = dash"
    "fmtIvPct (Val NegInf) = dash" "fmtIvPct Undefined = dash" "fmtIvPct Null = dash"
    by (simp_all add: fmtIvPct_def Number_def)
  have d1: "double 0.23 = Fin (8286623314361713 / 36028797018963968)"
    and d2: "double 45 = Fin 45"
    and d3: "double 1.4 = Fin (3152519739159347 / 2251799813685248)"
    and d4: "double (- 1) = Fin (- 1)"
    and d5: "double 1.115 = Fin (5021513584518103 / 4503599627370496)"
    and d6: "double 0.045 = Fin (3242591731706757 / 72057594037927936)"
    by (simp_all add: double_eval)
  have e1: "fmtIvPct (Val (double 0.23)) = ''23%''"
    unfolding d1 by (simp add: fmtIvPct_def Number_def numString_def showInt_def
        showNat.simps double_eval)
  have e2: "fmtIvPct (Val (double 45)) = ''45%''"
    unfolding d2 by (simp add: fmtIvPct_def Number_def numString_def showInt_def
        showNat.simps)
  have e3: "fmtIvPct (Val (double 1.4)) = ''140%''"
    unfolding d3 by (simp add: fmtIvPct_def Number_def numString_def showInt_def
        showNat.simps double_eval)
  have e4: "fmtIvPct (Val (double (- 1))) = dash"
    unfolding d4 by (simp add: fmtIvPct_def Number_def)
  have e5: "fmtIvPct (Val (double 1.115)) = ''112%''"
    unfolding d5 by (simp add: fmtIvPct_def Number_def numString_def showInt_def
        showNat.simps double_eval)
  have e6: "fmtIvPct (Val (double 0.045)) = ''5%''"
    unfolding d6 by (simp add: fmtIvPct_def Number_def numString_def showInt_def
        showNat.simps double_eval)
  from a b c e1 e2 e3 e4 e5 e6 show ?thesis by (intro conjI)
qed

theorem fmtIvPct_spec_witness:
  "fmtIvPct (Val (Fin 0.5)) = ''50%'' \<and> fmtIvPct (Val (Fin 1000)) = ''300%''
   \<and> fmtIvPct (Val (Fin 0)) = dash"
proof -
  have p: "double (0.5 * 100) = Fin 50"
    by (simp add: double_eval)
  from fmtIvPct_spec [of "0.5"] p have "fmtIvPct (Val (Fin 0.5)) = showInt (round (min (50::real) 300)) @ ''%''"
    by auto
  moreover from fmtIvPct_spec [of 1000]
  have "fmtIvPct (Val (Fin 1000)) = showInt (round (min (1000::real) 300)) @ ''%''"
    by simp
  moreover from fmtIvPct_spec [of 0] have "fmtIvPct (Val (Fin 0)) = dash"
    by simp
  ultimately show ?thesis by (simp add: showInt_def showNat.simps)
qed

section \<open>Decoding faults and unknown topics\<close>

lemma onmessage_err_irrelevant:
  "(onmessage (s\<lparr>err := a\<rparr>) f)\<lparr>err := x\<rparr> = (onmessage s f)\<lparr>err := x\<rparr>"
proof (cases f)
  case (Envelope m)
  then show ?thesis
    by (cases m) (simp_all add: equityTs_def Let_def)
qed simp_all

lemma onmessages_err_irrelevant:
  "s1\<lparr>err := x\<rparr> = s2\<lparr>err := x\<rparr> \<Longrightarrow>
   (onmessages s1 fs)\<lparr>err := x\<rparr> = (onmessages s2 fs)\<lparr>err := x\<rparr>"
proof (induction fs arbitrary: s1 s2)
  case Nil
  then show ?case by (simp add: onmessages_def)
next
  case (Cons f fs)
  from Cons.prems have "s1 = s2\<lparr>err := err s1\<rparr>"
    by (cases s1, cases s2) simp
  then have "(onmessage s1 f)\<lparr>err := x\<rparr> = (onmessage s2 f)\<lparr>err := x\<rparr>"
    using onmessage_err_irrelevant [where s = s2 and a = "err s1" and f = f and x = x] by simp
  from Cons.IH [OF this] show ?case by (simp add: onmessages_def)
qed

text \<open>
  C9. A frame that fails to decode sets the last error and changes nothing else; the
  frames after it leave the store as they would have without it, the last error
  apart. An envelope with an unknown topic leaves the whole store as it is.
\<close>

theorem decode_failure_only_sets_err:
  "(let s' = onmessage s (DecodeError e)
    in err s' = Some e \<and> equity s' = equity s \<and> options s' = options s
       \<and> sweeps s' = sweeps s \<and> blocks s' = blocks s \<and> wl s' = wl s
       \<and> basis s' = basis s)
   \<and> (onmessages s (DecodeError e # fs))\<lparr>err := x\<rparr> = (onmessages s fs)\<lparr>err := x\<rparr>
   \<and> onmessage s (Envelope (UnknownTopic t)) = s"
proof -
  have "(onmessages (onmessage s (DecodeError e)) fs)\<lparr>err := x\<rparr> = (onmessages s fs)\<lparr>err := x\<rparr>"
    by (rule onmessages_err_irrelevant) simp
  then show ?thesis by (simp add: onmessages_def)
qed

section \<open>Option grouping\<close>

lemma groupRows_snoc:
  "groupRows m (rs @ [r]) =
     AList.update (rowKey r)
       ((case map_of (groupRows m rs) (rowKey r) of Some a \<Rightarrow> a | None \<Rightarrow> []) @ [r])
       (groupRows m rs)"
  by (induction rs arbitrary: m) (simp_all add: Let_def)

lemma map_of_tabulate:
  "map_of (map (\<lambda>k. (k, f k)) ks) k = (if k \<in> set ks then Some (f k) else None)"
  by (induction ks) auto

lemma update_tabulate:
  "distinct ks \<Longrightarrow> AList.update k v (map (\<lambda>k. (k, f k)) ks) =
     (if k \<in> set ks then map (\<lambda>k'. (k', if k' = k then v else f k')) ks
      else map (\<lambda>k. (k, f k)) ks @ [(k, v)])"
  by (induction ks) auto

lemma groupRows_closed_form:
  "groupRows [] opts =
     map (\<lambda>k. (k, filter (\<lambda>r. rowKey r = k) opts)) (first_occurrences (map rowKey opts))"
proof (induction opts rule: rev_induct)
  case Nil
  then show ?case by (simp add: first_occurrences_Nil)
next
  case (snoc r opts)
  let ?ks = "first_occurrences (map rowKey opts)"
  have ks: "set ?ks = rowKey ` set opts" by (simp add: set_first_occurrences)
  have dks: "distinct ?ks" by (rule distinct_first_occurrences)
  show ?case
  proof (cases "rowKey r \<in> rowKey ` set opts")
    case True
    then show ?thesis
      using ks dks by (simp add: groupRows_snoc snoc.IH map_of_tabulate update_tabulate
          first_occurrences_snoc)
  next
    case False
    then have ne: "\<forall>x \<in> set opts. rowKey x \<noteq> rowKey r"
      by (metis imageI)
    then have "filter (\<lambda>x. rowKey x = rowKey r) opts = []"
      by (simp add: filter_empty_conv)
    with False ne show ?thesis
      using ks dks by (auto simp: groupRows_snoc snoc.IH map_of_tabulate update_tabulate
          first_occurrences_snoc)
  qed
qed

lemma optGrouped_closed_form:
  "optGrouped opts =
     map (\<lambda>k. (k, sort_key strike (filter (\<lambda>r. rowKey r = k) opts)))
       (first_occurrences (map rowKey opts))"
  by (simp add: optGrouped_def groupRows_closed_form)

lemma takeWhile_upto_char:
  "c \<notin> set u \<Longrightarrow> takeWhile (\<lambda>x. x \<noteq> c) (u @ c # e) = u"
  by (induction u) auto

lemma rowKey_inj:
  assumes "CHR '':'' \<notin> set (underlying r)" "CHR '':'' \<notin> set (underlying r')"
    and "rowKey r = rowKey r'"
  shows "underlying r = underlying r' \<and> expiration r = expiration r'"
proof -
  have "takeWhile (\<lambda>c. c \<noteq> CHR '':'') (rowKey r) = underlying r"
    using assms(1) by (simp add: rowKey_def takeWhile_upto_char)
  moreover have "takeWhile (\<lambda>c. c \<noteq> CHR '':'') (rowKey r') = underlying r'"
    using assms(2) by (simp add: rowKey_def takeWhile_upto_char)
  ultimately have "underlying r = underlying r'" using assms(3) by simp
  with assms(3) show ?thesis by (simp add: rowKey_def)
qed

text \<open>
  C10, as stated, fails: two rows of different pairs (underlying, expiration) whose
  composite strings agree land in one group.
\<close>

theorem optGrouped_key_collision:
  "optGrouped
     [\<lparr>underlying = ''A:B'', expiration = ''C'', strike = 1, right = C\<rparr>,
      \<lparr>underlying = ''A'', expiration = ''B:C'', strike = 2, right = C\<rparr>]
   = [(''A:B:C'',
       [\<lparr>underlying = ''A:B'', expiration = ''C'', strike = 1, right = C\<rparr>,
        \<lparr>underlying = ''A'', expiration = ''B:C'', strike = 2, right = C\<rparr>])]
   \<and> (''A:B'', ''C'') \<noteq> (''A'', ''B:C'')"
  by (simp add: optGrouped_def rowKey_def Let_def)

text \<open>
  C10, amended. \<open>optGrouped\<close> partitions the rows by the composite string
  \<open>underlying:expiration\<close>: the groups come in the order in which their keys are first
  seen, and the group of a key holds the rows with that key, sorted ascending by
  strike. Two rows whose underlyings have no colon have the same key exactly when they
  have the same pair. Rows for (AAPL, 2025-01-17) at strikes 150 and 140 and one row
  for (AAPL, 2025-02-21) give two groups, the first sorted 140, 150.
\<close>

theorem optGrouped_by_key:
  "optGrouped opts =
     map (\<lambda>k. (k, sort_key strike (filter (\<lambda>r. rowKey r = k) opts)))
       (first_occurrences (map rowKey opts))
   \<and> (\<forall>g \<in> set (optGrouped opts).
        sorted (map strike (snd g)) \<and> set (snd g) = {r \<in> set opts. rowKey r = fst g})
   \<and> (CHR '':'' \<notin> set (underlying r) \<and> CHR '':'' \<notin> set (underlying r') \<longrightarrow>
        (rowKey r = rowKey r') = (underlying r = underlying r' \<and> expiration r = expiration r'))
   \<and> optGrouped
        [\<lparr>underlying = ''AAPL'', expiration = ''2025-01-17'', strike = 150, right = C\<rparr>,
         \<lparr>underlying = ''AAPL'', expiration = ''2025-01-17'', strike = 140, right = P\<rparr>,
         \<lparr>underlying = ''AAPL'', expiration = ''2025-02-21'', strike = 145, right = C\<rparr>]
      = [(''AAPL:2025-01-17'',
           [\<lparr>underlying = ''AAPL'', expiration = ''2025-01-17'', strike = 140, right = P\<rparr>,
            \<lparr>underlying = ''AAPL'', expiration = ''2025-01-17'', strike = 150, right = C\<rparr>]),
         (''AAPL:2025-02-21'',
           [\<lparr>underlying = ''AAPL'', expiration = ''2025-02-21'', strike = 145, right = C\<rparr>])]"
proof -
  have a: "optGrouped opts =
     map (\<lambda>k. (k, sort_key strike (filter (\<lambda>r. rowKey r = k) opts)))
       (first_occurrences (map rowKey opts))"
    by (rule optGrouped_closed_form)
  have b: "\<forall>g \<in> set (optGrouped opts).
        sorted (map strike (snd g)) \<and> set (snd g) = {r \<in> set opts. rowKey r = fst g}"
    unfolding a by auto
  have c: "CHR '':'' \<notin> set (underlying r) \<and> CHR '':'' \<notin> set (underlying r') \<longrightarrow>
        (rowKey r = rowKey r') = (underlying r = underlying r' \<and> expiration r = expiration r')"
    using rowKey_inj [of r r'] by (auto simp: rowKey_def)
  have d: "optGrouped
        [\<lparr>underlying = ''AAPL'', expiration = ''2025-01-17'', strike = 150, right = C\<rparr>,
         \<lparr>underlying = ''AAPL'', expiration = ''2025-01-17'', strike = 140, right = P\<rparr>,
         \<lparr>underlying = ''AAPL'', expiration = ''2025-02-21'', strike = 145, right = C\<rparr>]
      = [(''AAPL:2025-01-17'',
           [\<lparr>underlying = ''AAPL'', expiration = ''2025-01-17'', strike = 140, right = P\<rparr>,
            \<lparr>underlying = ''AAPL'', expiration = ''2025-01-17'', strike = 150, right = C\<rparr>]),
         (''AAPL:2025-02-21'',
           [\<lparr>underlying = ''AAPL'', expiration = ''2025-02-21'', strike = 145, right = C\<rparr>])]"
    by (simp add: optGrouped_def rowKey_def Let_def)
  from a b c d show ?thesis by blast
qed

theorem optGrouped_by_key_witness:
  "optGrouped
     [\<lparr>underlying = ''MSFT'', expiration = ''2025-03-21'', strike = 400, right = C\<rparr>,
      \<lparr>underlying = ''AAPL'', expiration = ''2025-01-17'', strike = 150, right = C\<rparr>,
      \<lparr>underlying = ''MSFT'', expiration = ''2025-03-21'', strike = 390, right = C\<rparr>]
   = [(''MSFT:2025-03-21'',
        [\<lparr>underlying = ''MSFT'', expiration = ''2025-03-21'', strike = 390, right = C\<rparr>,
         \<lparr>underlying = ''MSFT'', expiration = ''2025-03-21'', strike = 400, right = C\<rparr>]),
      (''AAPL:2025-01-17'',
        [\<lparr>underlying = ''AAPL'', expiration = ''2025-01-17'', strike = 150, right = C\<rparr>])]
   \<and> (rowKey \<lparr>underlying = ''MSFT'', expiration = ''2025-03-21'', strike = 400, right = C\<rparr>
        = rowKey \<lparr>underlying = ''MSFT'', expiration = ''2025-03-21'', strike = 390, right = C\<rparr>)"
  using optGrouped_by_key
    [of "[\<lparr>underlying = ''MSFT'', expiration = ''2025-03-21'', strike = 400, right = C\<rparr>,
      \<lparr>underlying = ''AAPL'', expiration = ''2025-01-17'', strike = 150, right = C\<rparr>,
      \<lparr>underlying = ''MSFT'', expiration = ''2025-03-21'', strike = 390, right = C\<rparr>]"
      "\<lparr>underlying = ''MSFT'', expiration = ''2025-03-21'', strike = 400, right = C\<rparr>"
      "\<lparr>underlying = ''MSFT'', expiration = ''2025-03-21'', strike = 390, right = C\<rparr>"]
  by (simp add: rowKey_def first_occurrences_def)

end
